theory Spec2Isabelle
  imports Complex_Main "HOL-Library.Word"
begin

section \<open>Signaling server (\<^verbatim>\<open>proxystore/p2p/server.py\<close>)\<close>

subsection \<open>Data model\<close>

text \<open>
  A \<^verbatim>\<open>uuid.UUID\<close> is a 128-bit value; a websocket connection object is a dictionary key
  by identity, so a handle number stands for it. Serialized frames are byte strings.
\<close>

type_synonym UUID = "128 word"
type_synonym websocket = nat
type_synonym bytes = "8 word list"

text \<open>
  Modelled from the spec: the message classes of \<^verbatim>\<open>proxystore.p2p.messages\<close> and the
  exception carried in their \<^verbatim>\<open>error\<close> field are not among the source files modelled here; their
  fields are those the specification lists for the message codec and those the server's
  constructor calls name. \<open>PeerUnknownError u\<close> is the exception built from the text
  \<^verbatim>\<open>peer {u} is unknown\<close>. \<open>OtherMessage\<close> is any deserialized object of another class.
\<close>

datatype peer_error = PeerUnknownError UUID | OtherException string

record registration_request =
  req_uuid :: "UUID option"
  req_name :: string

record connection_message =
  source_uuid :: UUID
  source_name :: string
  peer_uuid :: UUID
  description :: "string option"
  error :: "peer_error option"

datatype message =
    PeerRegistrationRequest registration_request
  | PeerRegistrationResponse UUID "peer_error option"
  | PeerConnectionMessage connection_message
  | ServerError string
  | OtherMessage

text \<open>The dataclass \<^verbatim>\<open>Client\<close>.\<close>

record client =
  name :: string
  uuid :: UUID
  websocket :: websocket

text \<open>
  What the server does on its transports, in the order of the awaited calls:
  \<^verbatim>\<open>websocket.send(serialize(message))\<close> and \<^verbatim>\<open>websocket.close(code=...)\<close>. Both are
  taken to return: an exception of the websocket library in them is not modelled.
\<close>

datatype event = Sent websocket message | Closed websocket nat

text \<open>
  The state of a \<^verbatim>\<open>SignalingServer\<close>: its two dictionaries, the log of transport effects,
  and the number of calls of \<^verbatim>\<open>uuid4()\<close> made so far. The identifiers that \<^verbatim>\<open>uuid4()\<close>
  returns are a parameter \<open>uuid4 :: nat \<Rightarrow> UUID\<close> of the operations (the value of the
  \<open>n\<close>-th call).
\<close>

record server =
  websocket_to_client :: "websocket \<rightharpoonup> client"
  uuid_to_client :: "UUID \<rightharpoonup> client"
  wire :: "event list"
  minted :: nat

datatype py_error = KeyError | AttributeError | ValueError | TypeError

definition init_server :: server where
  "init_server = \<lparr>websocket_to_client = Map.empty, uuid_to_client = Map.empty,
     wire = [], minted = 0\<rparr>"

subsection \<open>Operations\<close>

definition send :: "server \<Rightarrow> websocket \<Rightarrow> message \<Rightarrow> server" where
  "send s w m = s\<lparr>wire := wire s @ [Sent w m]\<rparr>"

definition close_code :: "bool \<Rightarrow> nat" where
  "close_code expected = (if expected then 1000 else 1001)"

definition unregister :: "server \<Rightarrow> websocket \<Rightarrow> bool \<Rightarrow> server" where
  "unregister s w expected =
     (case websocket_to_client s w of
        None \<Rightarrow> s
      | Some c \<Rightarrow>
          let s1 = s\<lparr>websocket_to_client := (websocket_to_client s)(w := None)\<rparr>;
              s2 = s1\<lparr>uuid_to_client := (uuid_to_client s1)(uuid c := None)\<rparr>
          in s2\<lparr>wire := wire s2 @ [Closed (websocket c) (close_code expected)]\<rparr>)"

text \<open>Lines 78-82 of \<^verbatim>\<open>register\<close>: the identifier of the request, or a minted one.\<close>

definition request_uuid :: "(nat \<Rightarrow> UUID) \<Rightarrow> server \<Rightarrow> registration_request \<Rightarrow> UUID \<times> server" where
  "request_uuid uuid4 s request =
     (case req_uuid request of
        None \<Rightarrow> (uuid4 (minted s), s\<lparr>minted := Suc (minted s)\<rparr>)
      | Some u \<Rightarrow> (u, s))"

definition register :: "(nat \<Rightarrow> UUID) \<Rightarrow> server \<Rightarrow> websocket \<Rightarrow> registration_request \<Rightarrow> server" where
  "register uuid4 s w request =
     (let (uid, s0) = request_uuid uuid4 s request in
      case websocket_to_client s0 w of
        None \<Rightarrow>
          let s1 = (case uuid_to_client s0 uid of
                      None \<Rightarrow> s0
                    | Some old \<Rightarrow> unregister s0 (websocket old) False);
              c = \<lparr>name = req_name request, uuid = uid, websocket = w\<rparr>;
              s2 = s1\<lparr>websocket_to_client := (websocket_to_client s1)(w \<mapsto> c)\<rparr>;
              s3 = s2\<lparr>uuid_to_client := (uuid_to_client s2)(uuid c \<mapsto> c)\<rparr>
          in send s3 w (PeerRegistrationResponse (uuid c) None)
      | Some c \<Rightarrow> send s0 w (PeerRegistrationResponse (uuid c) None))"

definition connect :: "server \<Rightarrow> websocket \<Rightarrow> connection_message \<Rightarrow> py_error + server" where
  "connect s w m =
     (case websocket_to_client s w of
        None \<Rightarrow> Inl KeyError
      | Some c \<Rightarrow>
          (case uuid_to_client s (peer_uuid m) of
             None \<Rightarrow>
               Inr (send s w (PeerConnectionMessage
                  \<lparr>source_uuid = uuid c, source_name = name c, peer_uuid = peer_uuid m,
                   description = None, error = Some (PeerUnknownError (peer_uuid m))\<rparr>))
           | Some peer_client \<Rightarrow>
               Inr (send s (websocket peer_client) (PeerConnectionMessage m))))"

text \<open>
  One turn of the loop of \<^verbatim>\<open>handler\<close>. \<open>frame_outcome\<close> is what
  \<^verbatim>\<open>deserialize(await websocket.recv())\<close> does: it raises one of the three exceptions
  the loop catches, or yields a message. The boolean of the result says whether the
  loop goes on (\<^verbatim>\<open>break\<close> gives \<open>False\<close>).
\<close>

datatype frame_outcome =
    ConnectionClosedOK | ConnectionClosedError | SerializationError | Message message

definition handler_step ::
  "(nat \<Rightarrow> UUID) \<Rightarrow> server \<Rightarrow> websocket \<Rightarrow> frame_outcome \<Rightarrow> py_error + (server \<times> bool)" where
  "handler_step uuid4 s w outcome =
     (case outcome of
        ConnectionClosedOK \<Rightarrow> Inr (unregister s w True, False)
      | ConnectionClosedError \<Rightarrow> Inr (unregister s w False, False)
      | SerializationError \<Rightarrow> Inr (s, True)
      | Message msg \<Rightarrow>
          (case msg of
             PeerRegistrationRequest request \<Rightarrow> Inr (register uuid4 s w request, True)
           | PeerConnectionMessage m \<Rightarrow>
               (if websocket_to_client s w \<noteq> None
                then (case connect s w m of Inl e \<Rightarrow> Inl e | Inr s' \<Rightarrow> Inr (s', True))
                else Inr (send s w (ServerError ''client has not registered yet''), True))
           | _ \<Rightarrow> Inr (send s w (ServerError ''unknown request type''), True)))"

text \<open>The loop, run on the outcomes of the successive \<^verbatim>\<open>recv\<close> calls of one session.\<close>

fun handler ::
  "(nat \<Rightarrow> UUID) \<Rightarrow> server \<Rightarrow> websocket \<Rightarrow> frame_outcome list \<Rightarrow> py_error + server" where
  "handler uuid4 s w [] = Inr s"
| "handler uuid4 s w (x # xs) =
     (case handler_step uuid4 s w x of
        Inl e \<Rightarrow> Inl e
      | Inr (s', continue) \<Rightarrow> if continue then handler uuid4 s' w xs else Inr s')"

text \<open>
  Lines 96-117 of \<^verbatim>\<open>register\<close> for a transport that was not registered: what the coroutine
  does when it resumes after its awaited \<^verbatim>\<open>unregister\<close>, on the state \<open>s\<close> it finds then.
\<close>

definition register_resume :: "server \<Rightarrow> websocket \<Rightarrow> registration_request \<Rightarrow> UUID \<Rightarrow> server" where
  "register_resume s w request uid =
     (let c = \<lparr>name = req_name request, uuid = uid, websocket = w\<rparr>;
          s2 = s\<lparr>websocket_to_client := (websocket_to_client s)(w \<mapsto> c)\<rparr>;
          s3 = s2\<lparr>uuid_to_client := (uuid_to_client s2)(uuid c \<mapsto> c)\<rparr>
      in send s3 w (PeerRegistrationResponse (uuid c) None))"

text \<open>
  \<^verbatim>\<open>register\<close> up to the first \<^verbatim>\<open>await\<close> at which it is suspended. That is the \<^verbatim>\<open>close\<close> inside
  the awaited \<^verbatim>\<open>unregister\<close> when the identifier of the request is held by an entry whose
  transport is in the index by transport: the result then names the identifier, and
  lines 96-117 are still to run. In every other case no \<^verbatim>\<open>await\<close> suspends the coroutine
  before its final \<^verbatim>\<open>send\<close> (an \<^verbatim>\<open>unregister\<close> that finds no entry returns at once), after
  which it does nothing more.
\<close>

definition register_begin ::
  "(nat \<Rightarrow> UUID) \<Rightarrow> server \<Rightarrow> websocket \<Rightarrow> registration_request \<Rightarrow> server \<times> UUID option" where
  "register_begin uuid4 s w request =
     (let (uid, s0) = request_uuid uuid4 s request in
      case websocket_to_client s0 w of
        Some c \<Rightarrow> (send s0 w (PeerRegistrationResponse (uuid c) None), None)
      | None \<Rightarrow>
          (case uuid_to_client s0 uid of
             None \<Rightarrow> (register_resume s0 w request uid, None)
           | Some old \<Rightarrow>
               (case websocket_to_client s0 (websocket old) of
                  None \<Rightarrow> (register_resume s0 w request uid, None)
                | Some c \<Rightarrow> (unregister s0 (websocket old) False, Some uid))))"

text \<open>
  The states of the server with the sessions of all transports on one event loop. Beside
  the server's state stands the list of the registrations that are suspended in their
  awaited \<^verbatim>\<open>unregister\<close>: transport, request and identifier. The loop runs one coroutine
  at a time from one \<^verbatim>\<open>await\<close> to the next: a session whose \<^verbatim>\<open>handler\<close> waits for a frame
  starts a \<^verbatim>\<open>register\<close>, or runs \<^verbatim>\<open>unregister\<close> or \<^verbatim>\<open>connect\<close> (which do nothing after their
  one \<^verbatim>\<open>await\<close>), and a suspended registration resumes, on the state the others have left.
  The \<^verbatim>\<open>handler\<close> of a transport with a suspended registration is inside that
  \<^verbatim>\<open>register\<close> and starts nothing.
\<close>

type_synonym suspended = "websocket \<times> registration_request \<times> UUID"

inductive reachable :: "(nat \<Rightarrow> UUID) \<Rightarrow> server \<Rightarrow> suspended list \<Rightarrow> bool" for uuid4 where
  start: "reachable uuid4 init_server []"
| registration:
    "reachable uuid4 s ps \<Longrightarrow> w \<notin> fst ` set ps \<Longrightarrow> register_begin uuid4 s w request = (s', r)
      \<Longrightarrow> reachable uuid4 s' (case r of None \<Rightarrow> ps | Some uid \<Rightarrow> (w, request, uid) # ps)"
| resumption:
    "reachable uuid4 s ps \<Longrightarrow> (w, request, uid) \<in> set ps
      \<Longrightarrow> reachable uuid4 (register_resume s w request uid) (remove1 (w, request, uid) ps)"
| disconnection:
    "reachable uuid4 s ps \<Longrightarrow> w \<notin> fst ` set ps \<Longrightarrow> reachable uuid4 (unregister s w expected) ps"
| relay:
    "reachable uuid4 s ps \<Longrightarrow> w \<notin> fst ` set ps \<Longrightarrow> connect s w m = Inr s'
      \<Longrightarrow> reachable uuid4 s' ps"

text \<open>
  The two indices agree: every entry sits under its own transport and its own identifier
  in both dictionaries.
\<close>

definition consistent :: "server \<Rightarrow> bool" where
  "consistent s \<longleftrightarrow>
     (\<forall>w c. websocket_to_client s w = Some c \<longrightarrow>
        websocket c = w \<and> uuid_to_client s (uuid c) = Some c) \<and>
     (\<forall>u c. uuid_to_client s u = Some c \<longrightarrow>
        uuid c = u \<and> websocket_to_client s (websocket c) = Some c)"

text \<open>The frames sent to one transport, among a list of events.\<close>

fun sent_to :: "websocket \<Rightarrow> event list \<Rightarrow> message list" where
  "sent_to w [] = []"
| "sent_to w (Sent w' m # es) = (if w' = w then m # sent_to w es else sent_to w es)"
| "sent_to w (Closed w' code # es) = sent_to w es"

subsection \<open>Signaling client (\<^verbatim>\<open>connect\<close> of the module)\<close>

text \<open>
  The module-level coroutine \<^verbatim>\<open>connect\<close> (named \<open>connect_signaling\<close> here, the method of
  the server being \<open>connect\<close>). \<open>reply_outcome\<close> is what
  \<^verbatim>\<open>deserialize(await asyncio.wait_for(websocket.recv(), timeout))\<close> does. The handle \<open>ws\<close>
  is the connection that \<^verbatim>\<open>websockets.connect\<close> returned, \<open>hostname\<close> the value of
  \<^verbatim>\<open>gethostname()\<close>. The first component of the result is the frame sent on \<open>ws\<close>. Opening
  the connection and sending the request are taken to succeed.
\<close>

datatype reply_outcome = TimeoutError | Reply frame_outcome

datatype registration_failure =
    ClosedBeforeCompleted | NoReplyWithinTimeout | FailedToRegister peer_error
  | UnknownMessageType

datatype connect_exception =
    PeerRegistrationError registration_failure
  | UncaughtSerializationError

definition connect_signaling ::
  "string \<Rightarrow> websocket \<Rightarrow> UUID option \<Rightarrow> string option \<Rightarrow> reply_outcome
     \<Rightarrow> message \<times> (connect_exception + UUID \<times> string \<times> websocket)" where
  "connect_signaling hostname ws uid nm outcome =
     (let nm' = (case nm of None \<Rightarrow> hostname | Some n \<Rightarrow> n) in
      (PeerRegistrationRequest \<lparr>req_uuid = uid, req_name = nm'\<rparr>,
       case outcome of
         TimeoutError \<Rightarrow> Inl (PeerRegistrationError NoReplyWithinTimeout)
       | Reply ConnectionClosedOK \<Rightarrow> Inl (PeerRegistrationError ClosedBeforeCompleted)
       | Reply ConnectionClosedError \<Rightarrow> Inl (PeerRegistrationError ClosedBeforeCompleted)
       | Reply SerializationError \<Rightarrow> Inl UncaughtSerializationError
       | Reply (Message msg) \<Rightarrow>
           (case msg of
              PeerRegistrationResponse u err \<Rightarrow>
                (case err of
                   Some e \<Rightarrow> Inl (PeerRegistrationError (FailedToRegister e))
                 | None \<Rightarrow> Inr (u, nm', ws))
            | _ \<Rightarrow> Inl (PeerRegistrationError UnknownMessageType))))"

section \<open>Endpoint connector (\<^verbatim>\<open>proxystore/connectors/endpoint.py\<close>)\<close>

text \<open>The named tuple \<^verbatim>\<open>EndpointKey\<close>.\<close>

record EndpointKey =
  object_id :: string
  endpoint_id :: "string option"

text \<open>
  Modelled from the spec: the functions \<^verbatim>\<open>evict\<close>, \<^verbatim>\<open>exists\<close>, \<^verbatim>\<open>get\<close> and \<^verbatim>\<open>put\<close> of
  \<^verbatim>\<open>proxystore.endpoint.client\<close>, and the endpoint they talk to, are not among the
  source files modelled here. By the specification of the endpoint request layer, an endpoint owns
  a local store, a mapping from object identifiers to bytes; an operation whose
  endpoint identifier is absent or equals the local identity goes to the local store,
  any other one is delivered to the peer of that identity and fails when no such peer
  is known (the gateway answers 502, which the client raises as a
  \<^verbatim>\<open>RequestException\<close>); a key that is not found gives a null payload on \<^verbatim>\<open>get\<close>; evicting a
  key that does not exist succeeds. \<open>Inl code\<close> is the \<^verbatim>\<open>RequestException\<close> whose response
  has that status code.
\<close>

record endpoint =
  local_id :: string
  local_store :: "string \<rightharpoonup> bytes"
  peers :: "string \<rightharpoonup> (string \<rightharpoonup> bytes)"

text \<open>
  \<open>target\<close> is the routing rule (\<open>None\<close> for the local store), \<open>store_at\<close> the store an
  operation reaches, if any, and \<open>set_store_at\<close> its replacement.
\<close>

definition target :: "endpoint \<Rightarrow> string option \<Rightarrow> string option" where
  "target ep eid =
     (case eid of None \<Rightarrow> None | Some e \<Rightarrow> if e = local_id ep then None else Some e)"

definition store_at :: "endpoint \<Rightarrow> string option \<Rightarrow> (string \<rightharpoonup> bytes) option" where
  "store_at ep t = (case t of None \<Rightarrow> Some (local_store ep) | Some e \<Rightarrow> peers ep e)"

definition set_store_at :: "endpoint \<Rightarrow> string option \<Rightarrow> (string \<rightharpoonup> bytes) \<Rightarrow> endpoint" where
  "set_store_at ep t st =
     (case t of None \<Rightarrow> ep\<lparr>local_store := st\<rparr> | Some e \<Rightarrow> ep\<lparr>peers := (peers ep)(e \<mapsto> st)\<rparr>)"

definition client_get :: "endpoint \<Rightarrow> string \<Rightarrow> string option \<Rightarrow> nat + bytes option" where
  "client_get ep oid eid =
     (case store_at ep (target ep eid) of None \<Rightarrow> Inl 502 | Some st \<Rightarrow> Inr (st oid))"

definition client_exists :: "endpoint \<Rightarrow> string \<Rightarrow> string option \<Rightarrow> nat + bool" where
  "client_exists ep oid eid =
     (case store_at ep (target ep eid) of None \<Rightarrow> Inl 502 | Some st \<Rightarrow> Inr (st oid \<noteq> None))"

definition client_put :: "endpoint \<Rightarrow> string \<Rightarrow> bytes \<Rightarrow> string option \<Rightarrow> nat + endpoint" where
  "client_put ep oid obj eid =
     (case store_at ep (target ep eid) of
        None \<Rightarrow> Inl 502
      | Some st \<Rightarrow> Inr (set_store_at ep (target ep eid) (st(oid \<mapsto> obj))))"

definition client_evict :: "endpoint \<Rightarrow> string \<Rightarrow> string option \<Rightarrow> nat + endpoint" where
  "client_evict ep oid eid =
     (case store_at ep (target ep eid) of
        None \<Rightarrow> Inl 502
      | Some st \<Rightarrow> Inr (set_store_at ep (target ep eid) (st(oid := None))))"

text \<open>
  The connector. Of its attributes the operations use \<^verbatim>\<open>endpoint_uuid\<close>, through
  \<^verbatim>\<open>str(self.endpoint_uuid)\<close> only, and \<^verbatim>\<open>address\<close>; the field below is that string, and the
  endpoint at \<^verbatim>\<open>address\<close> is the \<open>service\<close> of the environment. \<open>uuid4_calls\<close> counts the
  calls of \<^verbatim>\<open>uuid.uuid4()\<close>; the parameter \<open>uuid4s n\<close> of \<open>put\<close> is \<^verbatim>\<open>str(uuid.uuid4())\<close> at
  the \<open>n\<close>-th call. \<open>EndpointConnectorError op code\<close> is the exception with the message
  \<^verbatim>\<open>{op} failed with error code {code}.\<close>
\<close>

record EndpointConnector =
  endpoint_uuid :: string

record env =
  service :: endpoint
  uuid4_calls :: nat

datatype connector_error = EndpointConnectorError string nat

definition evict :: "EndpointConnector \<Rightarrow> env \<Rightarrow> EndpointKey \<Rightarrow> (connector_error + unit) \<times> env" where
  "evict self e key =
     (case client_evict (service e) (object_id key) (endpoint_id key) of
        Inl code \<Rightarrow> (Inl (EndpointConnectorError ''Evict'' code), e)
      | Inr ep \<Rightarrow> (Inr (), e\<lparr>service := ep\<rparr>))"

definition exists :: "EndpointConnector \<Rightarrow> env \<Rightarrow> EndpointKey \<Rightarrow> connector_error + bool" where
  "exists self e key =
     (case client_exists (service e) (object_id key) (endpoint_id key) of
        Inl code \<Rightarrow> Inl (EndpointConnectorError ''Exists'' code)
      | Inr b \<Rightarrow> Inr b)"

definition get :: "EndpointConnector \<Rightarrow> env \<Rightarrow> EndpointKey \<Rightarrow> connector_error + bytes option" where
  "get self e key =
     (case client_get (service e) (object_id key) (endpoint_id key) of
        Inl code \<Rightarrow> Inl (EndpointConnectorError ''Get'' code)
      | Inr r \<Rightarrow> Inr r)"

definition put ::
  "(nat \<Rightarrow> string) \<Rightarrow> EndpointConnector \<Rightarrow> env \<Rightarrow> bytes \<Rightarrow> (connector_error + EndpointKey) \<times> env" where
  "put uuid4s self e obj =
     (let key = \<lparr>object_id = uuid4s (uuid4_calls e), endpoint_id = Some (endpoint_uuid self)\<rparr>;
          e1 = e\<lparr>uuid4_calls := Suc (uuid4_calls e)\<rparr>
      in case client_put (service e1) (object_id key) obj (endpoint_id key) of
           Inl code \<Rightarrow> (Inl (EndpointConnectorError ''Put'' code), e1)
         | Inr ep \<Rightarrow> (Inr key, e1\<lparr>service := ep\<rparr>))"

fun get_batch ::
  "EndpointConnector \<Rightarrow> env \<Rightarrow> EndpointKey list \<Rightarrow> connector_error + bytes option list" where
  "get_batch self e [] = Inr []"
| "get_batch self e (key # keys) =
     (case get self e key of
        Inl err \<Rightarrow> Inl err
      | Inr r \<Rightarrow> (case get_batch self e keys of Inl err \<Rightarrow> Inl err | Inr rs \<Rightarrow> Inr (r # rs)))"

fun put_batch ::
  "(nat \<Rightarrow> string) \<Rightarrow> EndpointConnector \<Rightarrow> env \<Rightarrow> bytes list
     \<Rightarrow> (connector_error + EndpointKey list) \<times> env" where
  "put_batch uuid4s self e [] = (Inr [], e)"
| "put_batch uuid4s self e (obj # objs) =
     (case put uuid4s self e obj of
        (Inl err, e1) \<Rightarrow> (Inl err, e1)
      | (Inr key, e1) \<Rightarrow>
          (case put_batch uuid4s self e1 objs of
             (Inl err, e2) \<Rightarrow> (Inl err, e2)
           | (Inr keys, e2) \<Rightarrow> (Inr (key # keys), e2)))"

text \<open>
  A caller's successive calls on one connector, each on the environment the previous one
  left (an exception is a result here: the caller goes on), with what each returned.
\<close>

datatype call = Put bytes | Get EndpointKey | Exists EndpointKey | Evict EndpointKey

datatype outcome =
    Key EndpointKey | Payload "bytes option" | Found bool | Done | Raised connector_error

definition perform ::
  "(nat \<Rightarrow> string) \<Rightarrow> EndpointConnector \<Rightarrow> env \<Rightarrow> call \<Rightarrow> outcome \<times> env" where
  "perform uuid4s self e c =
     (case c of
        Put obj \<Rightarrow>
          (case put uuid4s self e obj of
             (Inl err, e1) \<Rightarrow> (Raised err, e1) | (Inr key, e1) \<Rightarrow> (Key key, e1))
      | Get key \<Rightarrow>
          (case get self e key of Inl err \<Rightarrow> (Raised err, e) | Inr r \<Rightarrow> (Payload r, e))
      | Exists key \<Rightarrow>
          (case exists self e key of Inl err \<Rightarrow> (Raised err, e) | Inr b \<Rightarrow> (Found b, e))
      | Evict key \<Rightarrow>
          (case evict self e key of
             (Inl err, e1) \<Rightarrow> (Raised err, e1) | (Inr u, e1) \<Rightarrow> (Done, e1)))"

fun run ::
  "(nat \<Rightarrow> string) \<Rightarrow> EndpointConnector \<Rightarrow> env \<Rightarrow> call list \<Rightarrow> outcome list \<times> env" where
  "run uuid4s self e [] = ([], e)"
| "run uuid4s self e (c # cs) =
     (case perform uuid4s self e c of
        (r, e1) \<Rightarrow> (case run uuid4s self e1 cs of (rs, e2) \<Rightarrow> (r # rs, e2)))"

text \<open>A call that evicts the object of key \<open>k\<close>: same object, same store.\<close>

definition evicts :: "endpoint \<Rightarrow> EndpointKey \<Rightarrow> call \<Rightarrow> bool" where
  "evicts ep k c =
     (case c of
        Evict k' \<Rightarrow> object_id k' = object_id k
                    \<and> target ep (endpoint_id k') = target ep (endpoint_id k)
      | _ \<Rightarrow> False)"

text \<open>The store that key \<open>k\<close> names holds the bytes \<open>b\<close> under the key's object identifier.\<close>

definition holds :: "endpoint \<Rightarrow> EndpointKey \<Rightarrow> bytes \<Rightarrow> bool" where
  "holds ep k b =
     (case store_at ep (target ep (endpoint_id k)) of
        None \<Rightarrow> False
      | Some st \<Rightarrow> st (object_id k) = Some b)"

section \<open>Remote store (\<^verbatim>\<open>proxystore/store/remote.py\<close>)\<close>

text \<open>
  A value held by the store's cache or returned by \<^verbatim>\<open>get\<close> is the serialized bytes
  themselves (\<^verbatim>\<open>deserialize=False\<close>) or the object that \<^verbatim>\<open>ps.serialize.deserialize\<close> made of
  them; \<open>None\<close> of an \<open>option\<close> is Python's \<^verbatim>\<open>None\<close>. The parameters of the operations are
  the abstract method \<^verbatim>\<open>get_bytes\<close> of the subclass, \<open>float_of\<close> for
  \<^verbatim>\<open>float(b.decode())\<close> and \<open>deser\<close> for \<^verbatim>\<open>ps.serialize.deserialize\<close>, both of which may
  raise. A timestamp is a real number.

  Modelled from the spec: the class \<^verbatim>\<open>LRUCache\<close> is not among the source files modelled here; the
  specification has the cache as a mapping from the key to a pair of timestamp and
  value, which is all that \<^verbatim>\<open>exists\<close>, \<^verbatim>\<open>get\<close> and \<^verbatim>\<open>set\<close> are here. The attribute \<^verbatim>\<open>_cache\<close> is
  \<^verbatim>\<open>None\<close> when the cache size is 0.
\<close>

datatype 'o stored = Serialized bytes | Deserialized 'o

type_synonym 'o cache = "string \<rightharpoonup> real \<times> 'o stored"

record 'o RemoteStore =
  cache :: "'o cache option"

definition store_timestamp ::
  "(string \<Rightarrow> bytes option) \<Rightarrow> (bytes \<Rightarrow> py_error + real) \<Rightarrow> string \<Rightarrow> py_error + real" where
  "store_timestamp get_bytes float_of key =
     (case get_bytes (key @ ''_timestamp'') of
        None \<Rightarrow> Inl AttributeError
      | Some b \<Rightarrow> float_of b)"

text \<open>
  \<open>is_cached\<close> and \<open>store_get\<close> (the method \<^verbatim>\<open>get\<close>; the connector has \<open>get\<close> already)
  return, before their value or the exception they raise, the keys they passed to
  \<^verbatim>\<open>get_bytes\<close>, in order: the lookups made in the remote store. \<open>fetch\<close> is the part of
  \<^verbatim>\<open>get\<close> that follows the cache check (lines 211-228).
\<close>

definition is_cached ::
  "(string \<Rightarrow> bytes option) \<Rightarrow> (bytes \<Rightarrow> py_error + real) \<Rightarrow> 'o RemoteStore \<Rightarrow> string \<Rightarrow> bool
     \<Rightarrow> string list \<times> (py_error + bool)" where
  "is_cached get_bytes float_of self key strict =
     (case cache self of
        None \<Rightarrow> ([], Inr False)
      | Some c \<Rightarrow>
          (case c key of
             Some (cache_timestamp, v) \<Rightarrow>
               if strict
               then ([key @ ''_timestamp''],
                     case store_timestamp get_bytes float_of key of
                       Inl err \<Rightarrow> Inl err
                     | Inr ts \<Rightarrow> Inr (cache_timestamp \<ge> ts))
               else ([], Inr True)
           | None \<Rightarrow> ([], Inr False)))"

definition fetch ::
  "(string \<Rightarrow> bytes option) \<Rightarrow> (bytes \<Rightarrow> py_error + real) \<Rightarrow> (bytes \<Rightarrow> py_error + 'o)
     \<Rightarrow> 'o RemoteStore \<Rightarrow> string \<Rightarrow> bool \<Rightarrow> 'o stored option
     \<Rightarrow> string list \<times> (py_error + 'o stored option \<times> 'o RemoteStore)" where
  "fetch get_bytes float_of deser self key deserialize dflt =
     (case get_bytes key of
        None \<Rightarrow> ([key], Inr (dflt, self))
      | Some raw \<Rightarrow>
          ([key, key @ ''_timestamp''],
           case store_timestamp get_bytes float_of key of
             Inl err \<Rightarrow> Inl err
           | Inr ts \<Rightarrow>
               (case (if deserialize
                      then map_sum id Deserialized (deser raw)
                      else Inr (Serialized raw)) of
                  Inl err \<Rightarrow> Inl err
                | Inr v \<Rightarrow>
                    Inr (Some v,
                         self\<lparr>cache := map_option (\<lambda>c. c(key \<mapsto> (ts, v))) (cache self)\<rparr>))))"

definition store_get ::
  "(string \<Rightarrow> bytes option) \<Rightarrow> (bytes \<Rightarrow> py_error + real) \<Rightarrow> (bytes \<Rightarrow> py_error + 'o)
     \<Rightarrow> 'o RemoteStore \<Rightarrow> string \<Rightarrow> bool \<Rightarrow> bool \<Rightarrow> 'o stored option
     \<Rightarrow> string list \<times> (py_error + 'o stored option \<times> 'o RemoteStore)" where
  "store_get get_bytes float_of deser self key deserialize strict dflt =
     (case is_cached get_bytes float_of self key strict of
        (looked, Inl err) \<Rightarrow> (looked, Inl err)
      | (looked, Inr hit) \<Rightarrow>
          if hit
          then (looked,
                case cache self of
                  None \<Rightarrow> Inl AttributeError
                | Some c \<Rightarrow>
                    (case c key of
                       None \<Rightarrow> Inl TypeError
                     | Some (t, v) \<Rightarrow> Inr (Some v, self)))
          else (case fetch get_bytes float_of deser self key deserialize dflt of
                  (looked', r) \<Rightarrow> (looked @ looked', r)))"

section \<open>Properties of the signaling server\<close>

subsection \<open>An operation run to its end keeps the two indices consistent\<close>

lemma consistentD1:
  "consistent s \<Longrightarrow> websocket_to_client s w = Some c \<Longrightarrow>
     websocket c = w \<and> uuid_to_client s (uuid c) = Some c"
  by (simp add: consistent_def)


lemma unregister_Some:
  assumes "websocket_to_client s w = Some c"
  shows "websocket_to_client (unregister s w expected) = (websocket_to_client s)(w := None)"
    and "uuid_to_client (unregister s w expected) = (uuid_to_client s)(uuid c := None)"
    and "wire (unregister s w expected) = wire s @ [Closed (websocket c) (close_code expected)]"
    and "minted (unregister s w expected) = minted s"
  using assms by (simp_all add: unregister_def Let_def)



lemma consistent_send: "consistent (send s w m) = consistent s"
  by (simp add: consistent_def send_def)



lemma request_uuid_fields:
  assumes "request_uuid uuid4 s request = (u, s0)"
  shows "websocket_to_client s0 = websocket_to_client s"
    and "uuid_to_client s0 = uuid_to_client s" and "wire s0 = wire s"
  using assms by (auto simp: request_uuid_def split: option.splits)



lemma register_seen:
  assumes r: "request_uuid uuid4 s request = (u, s0)"
    and w: "websocket_to_client s0 w = Some c"
  shows "register uuid4 s w request = send s0 w (PeerRegistrationResponse (uuid c) None)"
  using r w by (simp add: register_def)


lemma consistent_connect:
  assumes "consistent s" "connect s w m = Inr s'"
  shows "consistent s'"
proof -
  from assms(2) obtain w' m' where "s' = send s w' m'"
    by (auto simp: connect_def split: option.splits)
  then show ?thesis using assms(1) by (simp add: consistent_send)
qed

subsection \<open>A registration resumed after another session's registration\<close>

text \<open>
  \<^verbatim>\<open>register\<close>, run without another coroutine in between, is \<open>register_begin\<close> followed,
  where that one is suspended, by \<open>register_resume\<close> on the state it left.
\<close>

lemma register_begin_resume:
  "register uuid4 s w request =
     (case register_begin uuid4 s w request of
        (s1, None) \<Rightarrow> s1
      | (s1, Some uid) \<Rightarrow> register_resume s1 w request uid)"
proof -
  obtain u s0 where r: "request_uuid uuid4 s request = (u, s0)"
    by (cases "request_uuid uuid4 s request")
  show ?thesis
  proof (cases "websocket_to_client s0 w")
    case (Some c)
    then show ?thesis using r by (simp add: register_def register_begin_def)
  next
    case None
    show ?thesis
    proof (cases "uuid_to_client s0 u")
      case N: None
      then show ?thesis using r None
        by (simp add: register_def register_begin_def register_resume_def Let_def)
    next
      case (Some old)
      show ?thesis
      proof (cases "websocket_to_client s0 (websocket old)")
        case N: None
        then have "unregister s0 (websocket old) False = s0" by (simp add: unregister_def)
        then show ?thesis using r None Some N
          by (simp add: register_def register_begin_def register_resume_def Let_def)
      next
        case S: (Some c)
        then show ?thesis using r None Some
          by (simp add: register_def register_begin_def register_resume_def Let_def)
      qed
    qed
  qed
qed

lemma register_begin_unheld:
  assumes "websocket_to_client s w = None" "req_uuid request = Some u" "uuid_to_client s u = None"
  shows "register_begin uuid4 s w request = (register uuid4 s w request, None)"
    and "websocket_to_client (register uuid4 s w request)
           = (websocket_to_client s)(w \<mapsto> \<lparr>name = req_name request, uuid = u, websocket = w\<rparr>)"
    and "uuid_to_client (register uuid4 s w request)
           = (uuid_to_client s)(u \<mapsto> \<lparr>name = req_name request, uuid = u, websocket = w\<rparr>)"
  using assms
  by (simp_all add: register_begin_def register_def register_resume_def request_uuid_def
        send_def Let_def)

lemma register_begin_held:
  assumes "websocket_to_client s w = None" "req_uuid request = Some u"
    and "uuid_to_client s u = Some old" "websocket_to_client s (websocket old) = Some c"
  shows "register_begin uuid4 s w request = (unregister s (websocket old) False, Some u)"
  using assms by (simp add: register_begin_def request_uuid_def)

lemma register_resume_fields:
  "websocket_to_client (register_resume s w request u)
     = (websocket_to_client s)(w \<mapsto> \<lparr>name = req_name request, uuid = u, websocket = w\<rparr>)"
  "uuid_to_client (register_resume s w request u)
     = (uuid_to_client s)(u \<mapsto> \<lparr>name = req_name request, uuid = u, websocket = w\<rparr>)"
  by (simp_all add: register_resume_def send_def Let_def)

text \<open>
  Claim C5. The claim holds of the operations run one after another
  (\<open>consistent_register\<close>, \<open>consistent_unregister\<close>, \<open>consistent_connect\<close>), and the server
  breaks it when sessions interleave. Transport 10 holds identifier 7. Transport 20 asks
  for identifier 7: \<^verbatim>\<open>register\<close> unregisters transport 10 and waits for its \<^verbatim>\<open>close\<close>.
  Transport 30 asks for identifier 7 meanwhile and is registered. The registration of
  transport 20 resumes and binds identifier 7 again, with no second look at the index.
  In the state reached, with no registration left suspended, the entry of transport 30
  is in the index by transport, and the index by identifier has the entry of transport 20
  under the identifier of both.
\<close>

theorem interleaved_registrations_disagree:
  "(let s = register_resume
              (register of_nat
                 (unregister
                    (register of_nat init_server 10 \<lparr>req_uuid = Some 7, req_name = ''a''\<rparr>)
                    10 False)
                 30 \<lparr>req_uuid = Some 7, req_name = ''c''\<rparr>)
              20 \<lparr>req_uuid = Some 7, req_name = ''b''\<rparr> 7
    in reachable of_nat s [] \<and>
       websocket_to_client s 30 = Some \<lparr>name = ''c'', uuid = 7, websocket = 30\<rparr> \<and>
       websocket_to_client s 20 = Some \<lparr>name = ''b'', uuid = 7, websocket = 20\<rparr> \<and>
       uuid_to_client s 7 = Some \<lparr>name = ''b'', uuid = 7, websocket = 20\<rparr>)"
proof -
  let ?a = "\<lparr>req_uuid = Some (7 :: UUID), req_name = ''a''\<rparr>"
  let ?b = "\<lparr>req_uuid = Some (7 :: UUID), req_name = ''b''\<rparr>"
  let ?c = "\<lparr>req_uuid = Some (7 :: UUID), req_name = ''c''\<rparr>"
  let ?first = "register of_nat init_server 10 ?a"
  let ?waiting = "unregister ?first 10 False"
  let ?other = "register of_nat ?waiting 30 ?c"
  let ?last = "register_resume ?other 20 ?b 7"
  have e: "websocket_to_client init_server = Map.empty" "uuid_to_client init_server = Map.empty"
    by (simp_all add: init_server_def)
  have b1: "register_begin of_nat init_server 10 ?a = (?first, None)"
    by (rule register_begin_unheld(1)[where u = 7]) (simp_all add: e)
  have f: "websocket_to_client ?first = [10 \<mapsto> \<lparr>name = ''a'', uuid = 7, websocket = 10\<rparr>]"
      "uuid_to_client ?first = [7 \<mapsto> \<lparr>name = ''a'', uuid = 7, websocket = 10\<rparr>]"
    by (simp_all add: register_begin_unheld(2,3)[where u = 7] e)
  have b2: "register_begin of_nat ?first 20 ?b = (?waiting, Some 7)"
    using register_begin_held[where s = ?first and w = 20 and request = ?b and u = 7
        and old = "\<lparr>name = ''a'', uuid = 7, websocket = 10\<rparr>"
        and c = "\<lparr>name = ''a'', uuid = 7, websocket = 10\<rparr>" and ?uuid4.0 = of_nat]
    by (simp add: f)
  have g: "websocket_to_client ?waiting = Map.empty" "uuid_to_client ?waiting = Map.empty"
    using unregister_Some(1,2)[where s = ?first and w = 10
        and c = "\<lparr>name = ''a'', uuid = 7, websocket = 10\<rparr>" and expected = False]
    by (simp_all add: f)
  have b3: "register_begin of_nat ?waiting 30 ?c = (?other, None)"
    by (rule register_begin_unheld(1)[where u = 7]) (simp_all add: g)
  have h: "websocket_to_client ?other = [30 \<mapsto> \<lparr>name = ''c'', uuid = 7, websocket = 30\<rparr>]"
      "uuid_to_client ?other = [7 \<mapsto> \<lparr>name = ''c'', uuid = 7, websocket = 30\<rparr>]"
    by (simp_all add: register_begin_unheld(2,3)[where u = 7] g)
  have r1: "reachable of_nat ?first []"
    using reachable.registration[OF reachable.start _ b1] by simp
  have r2: "reachable of_nat ?waiting [(20, ?b, 7)]"
    using reachable.registration[OF r1 _ b2] by simp
  have r3: "reachable of_nat ?other [(20, ?b, 7)]"
    using reachable.registration[OF r2 _ b3] by simp
  have r4: "reachable of_nat ?last []"
    using reachable.resumption[OF r3, of 20 ?b 7] by simp
  have i: "websocket_to_client ?last 30 = Some \<lparr>name = ''c'', uuid = 7, websocket = 30\<rparr>"
      "websocket_to_client ?last 20 = Some \<lparr>name = ''b'', uuid = 7, websocket = 20\<rparr>"
      "uuid_to_client ?last 7 = Some \<lparr>name = ''b'', uuid = 7, websocket = 20\<rparr>"
    by (simp_all add: register_resume_fields h)
  show ?thesis unfolding Let_def using r4 i by blast
qed

text \<open>So that state is not \<open>consistent\<close>.\<close>

lemma register_resumed_late_inconsistent:
  "\<not> consistent
       (register_resume
          (register of_nat
             (unregister (register of_nat init_server 10 \<lparr>req_uuid = Some 7, req_name = ''a''\<rparr>)
                10 False)
             30 \<lparr>req_uuid = Some 7, req_name = ''c''\<rparr>)
          20 \<lparr>req_uuid = Some 7, req_name = ''b''\<rparr> 7)"
proof
  let ?s = "register_resume
          (register of_nat
             (unregister (register of_nat init_server 10 \<lparr>req_uuid = Some 7, req_name = ''a''\<rparr>)
                10 False)
             30 \<lparr>req_uuid = Some 7, req_name = ''c''\<rparr>)
          20 \<lparr>req_uuid = Some 7, req_name = ''b''\<rparr> 7"
  assume cs: "consistent ?s"
  have a: "websocket_to_client ?s 30 = Some \<lparr>name = ''c'', uuid = 7, websocket = 30\<rparr>"
    and b: "uuid_to_client ?s 7 = Some \<lparr>name = ''b'', uuid = 7, websocket = 20\<rparr>"
    by (simp_all add: register_resume_def register_def unregister_def request_uuid_def
          init_server_def send_def Let_def)
  from consistentD1[OF cs a] b show False by simp
qed

subsection \<open>Registration\<close>

text \<open>
  Claim C9. A registration request on a transport that is registered already leaves both
  indices as they are, whatever identifier the request carries, and the one frame sent is
  the response with the identifier of the entry held for that transport.
\<close>

theorem reregister_same_transport:
  assumes "websocket_to_client s w = Some c"
  shows "websocket_to_client (register uuid4 s w request) = websocket_to_client s \<and>
         uuid_to_client (register uuid4 s w request) = uuid_to_client s \<and>
         wire (register uuid4 s w request)
           = wire s @ [Sent w (PeerRegistrationResponse (uuid c) None)]"
proof -
  obtain u s0 where r: "request_uuid uuid4 s request = (u, s0)"
    by (cases "request_uuid uuid4 s request")
  note f = request_uuid_fields[OF r]
  have "websocket_to_client s0 w = Some c" using assms f by simp
  from register_seen[OF r this] show ?thesis using f by (simp add: send_def)
qed

theorem reregister_same_transport_witness:
  "wire (register of_nat (register of_nat init_server 0 \<lparr>req_uuid = Some 1, req_name = ''a''\<rparr>)
           0 \<lparr>req_uuid = Some 2, req_name = ''b''\<rparr>)
     = [Sent 0 (PeerRegistrationResponse 1 None), Sent 0 (PeerRegistrationResponse 1 None)]"
proof -
  let ?s = "register of_nat init_server 0 \<lparr>req_uuid = Some 1, req_name = ''a''\<rparr>"
  have a: "websocket_to_client ?s 0 = Some \<lparr>name = ''a'', uuid = 1, websocket = 0\<rparr>"
    and b: "wire ?s = [Sent 0 (PeerRegistrationResponse 1 None)]"
    by (simp_all add: register_def request_uuid_def init_server_def send_def Let_def)
  show ?thesis
    using reregister_same_transport[OF a, of of_nat "\<lparr>req_uuid = Some 2, req_name = ''b''\<rparr>"] b
    by simp
qed



subsection \<open>Frames of a session\<close>

text \<open>
  Claim C3, as the server behaves. A decoded frame that is not a registration request,
  received on a transport that is not registered: a \<^verbatim>\<open>PeerConnectionMessage\<close> is answered
  with \<^verbatim>\<open>ServerError('client has not registered yet')\<close>, a message of any other class with
  \<^verbatim>\<open>ServerError('unknown request type')\<close>; that answer is the only effect, so that neither
  index gets an entry, and the loop goes on.
\<close>

theorem unregistered_frame_reply:
  assumes "websocket_to_client s w = None"
    and "\<forall>request. msg \<noteq> PeerRegistrationRequest request"
  shows "handler_step uuid4 s w (Message msg) =
           Inr (s\<lparr>wire := wire s @ [Sent w (ServerError
                  (case msg of
                     PeerConnectionMessage m \<Rightarrow> ''client has not registered yet''
                   | _ \<Rightarrow> ''unknown request type''))]\<rparr>, True)"
  using assms by (cases msg) (simp_all add: handler_step_def send_def)

theorem unregistered_frame_reply_witness:
  "handler_step of_nat init_server 0
     (Message (PeerConnectionMessage \<lparr>source_uuid = 1, source_name = ''a'', peer_uuid = 2,
        description = None, error = None\<rparr>))
   = Inr (init_server\<lparr>wire := [Sent 0 (ServerError ''client has not registered yet'')]\<rparr>, True)"
proof -
  have a: "websocket_to_client init_server 0 = None" by (simp add: init_server_def)
  have b: "\<forall>request. PeerConnectionMessage \<lparr>source_uuid = 1, source_name = ''a'', peer_uuid = 2,
        description = None, error = None\<rparr> \<noteq> PeerRegistrationRequest request" by simp
  from unregistered_frame_reply[OF a b, of of_nat] show ?thesis by (simp add: init_server_def)
qed

text \<open>
  The claim as it was stated fails: a \<^verbatim>\<open>ServerError\<close> frame from a transport that is not
  registered is answered with \<^verbatim>\<open>unknown request type\<close>.
\<close>

theorem unregistered_frame_counterexample:
  "websocket_to_client init_server 0 = None \<and>
   handler_step of_nat init_server 0 (Message (ServerError ''hello''))
     = Inr (init_server\<lparr>wire := [Sent 0 (ServerError ''unknown request type'')]\<rparr>, True) \<and>
   ServerError ''unknown request type'' \<noteq> ServerError ''client has not registered yet''"
  by (simp add: handler_step_def send_def init_server_def)

text \<open>
  Claim C2, as the server behaves, in any state of the two indices. A
  \<^verbatim>\<open>PeerConnectionMessage\<close> from a client \<open>c\<close> registered on transport \<open>w\<close>: when the index by
  identifier has an entry for its \<^verbatim>\<open>peer_uuid\<close>, the one frame sent is the message itself,
  on the transport of that entry, so that the sender is sent that frame when the
  transport of the entry is its own and nothing otherwise; when the index has no entry,
  the one frame sent goes to the sender and is a \<^verbatim>\<open>PeerConnectionMessage\<close> with the
  sender's registered identifier and name as source, the same \<^verbatim>\<open>peer_uuid\<close>, no description
  and the \<^verbatim>\<open>PeerUnknownError\<close> for that peer. Neither index changes.
\<close>

theorem connect_relays_or_reports:
  assumes c: "websocket_to_client s w = Some c"
  shows "(case uuid_to_client s (peer_uuid m) of
            Some peer_client \<Rightarrow>
              connect s w m
                = Inr (s\<lparr>wire := wire s @ [Sent (websocket peer_client) (PeerConnectionMessage m)]\<rparr>)
              \<and> sent_to w [Sent (websocket peer_client) (PeerConnectionMessage m)]
                  = (if websocket peer_client = w then [PeerConnectionMessage m] else [])
          | None \<Rightarrow>
              connect s w m
                = Inr (s\<lparr>wire := wire s @ [Sent w (PeerConnectionMessage
                     \<lparr>source_uuid = uuid c, source_name = name c, peer_uuid = peer_uuid m,
                      description = None, error = Some (PeerUnknownError (peer_uuid m))\<rparr>)]\<rparr>))"
proof (cases "uuid_to_client s (peer_uuid m)")
  case None
  then show ?thesis using c by (simp add: connect_def send_def)
next
  case (Some p)
  then show ?thesis using c by (simp add: connect_def send_def)
qed

theorem connect_relays_or_reports_witness:
  "connect (register of_nat (register of_nat init_server 0 \<lparr>req_uuid = Some 1, req_name = ''a''\<rparr>)
              1 \<lparr>req_uuid = Some 2, req_name = ''b''\<rparr>) 0
     \<lparr>source_uuid = 1, source_name = ''a'', peer_uuid = 2, description = Some ''offer'',
      error = None\<rparr>
   = Inr ((register of_nat (register of_nat init_server 0 \<lparr>req_uuid = Some 1, req_name = ''a''\<rparr>)
              1 \<lparr>req_uuid = Some 2, req_name = ''b''\<rparr>)
          \<lparr>wire := [Sent 0 (PeerRegistrationResponse 1 None),
                    Sent 1 (PeerRegistrationResponse 2 None),
                    Sent 1 (PeerConnectionMessage
                      \<lparr>source_uuid = 1, source_name = ''a'', peer_uuid = 2,
                       description = Some ''offer'', error = None\<rparr>)]\<rparr>)"
proof -
  let ?s = "register of_nat (register of_nat init_server 0 \<lparr>req_uuid = Some 1, req_name = ''a''\<rparr>)
              1 \<lparr>req_uuid = Some 2, req_name = ''b''\<rparr>"
  have c: "websocket_to_client ?s 0 = Some \<lparr>name = ''a'', uuid = 1, websocket = 0\<rparr>"
    and p: "uuid_to_client ?s 2 = Some \<lparr>name = ''b'', uuid = 2, websocket = 1\<rparr>"
    and b: "wire ?s = [Sent 0 (PeerRegistrationResponse 1 None),
                       Sent 1 (PeerRegistrationResponse 2 None)]"
    by (simp_all add: register_def request_uuid_def init_server_def send_def Let_def)
  from connect_relays_or_reports[OF c,
      of "\<lparr>source_uuid = 1, source_name = ''a'', peer_uuid = 2, description = Some ''offer'',
           error = None\<rparr>"] p b
  show ?thesis by simp
qed

text \<open>
  The claim as it was stated fails where it says that nothing is sent to the sender: a
  client that names its own identifier as the peer gets its frame back.
\<close>

theorem connect_to_self_counterexample:
  "websocket_to_client
     (register of_nat init_server 0 \<lparr>req_uuid = Some 1, req_name = ''a''\<rparr>) 0 \<noteq> None \<and>
   uuid_to_client
     (register of_nat init_server 0 \<lparr>req_uuid = Some 1, req_name = ''a''\<rparr>) 1 \<noteq> None \<and>
   connect (register of_nat init_server 0 \<lparr>req_uuid = Some 1, req_name = ''a''\<rparr>) 0
     \<lparr>source_uuid = 1, source_name = ''a'', peer_uuid = 1, description = None, error = None\<rparr>
   = Inr ((register of_nat init_server 0 \<lparr>req_uuid = Some 1, req_name = ''a''\<rparr>)
          \<lparr>wire := [Sent 0 (PeerRegistrationResponse 1 None),
                    Sent 0 (PeerConnectionMessage
                      \<lparr>source_uuid = 1, source_name = ''a'', peer_uuid = 1,
                       description = None, error = None\<rparr>)]\<rparr>) \<and>
   sent_to 0 [Sent 0 (PeerConnectionMessage
                \<lparr>source_uuid = 1, source_name = ''a'', peer_uuid = 1,
                 description = None, error = None\<rparr>)] \<noteq> []"
  by (simp add: connect_def register_def request_uuid_def init_server_def send_def Let_def)

section \<open>Properties of the signaling client\<close>

text \<open>
  When the reply can be decoded, \<open>connect_signaling\<close> returns the identifier of the
  response, the name it registered with and the connection, or raises
  \<^verbatim>\<open>PeerRegistrationError\<close>; it returns exactly when the reply is a response without error.
\<close>

lemma connect_signaling_decoded:
  assumes "outcome \<noteq> Reply SerializationError"
  shows "snd (connect_signaling hostname ws uid nm outcome) =
           (case outcome of
              Reply (Message (PeerRegistrationResponse u None)) \<Rightarrow>
                Inr (u, (case nm of None \<Rightarrow> hostname | Some n \<Rightarrow> n), ws)
            | Reply (Message (PeerRegistrationResponse u (Some e))) \<Rightarrow>
                Inl (PeerRegistrationError (FailedToRegister e))
            | Reply (Message _) \<Rightarrow> Inl (PeerRegistrationError UnknownMessageType)
            | TimeoutError \<Rightarrow> Inl (PeerRegistrationError NoReplyWithinTimeout)
            | _ \<Rightarrow> Inl (PeerRegistrationError ClosedBeforeCompleted))"
  using assms
  by (simp add: connect_signaling_def Let_def
      split: reply_outcome.splits frame_outcome.splits message.splits option.splits)

text \<open>
  Claim C6. The claim has \<open>connect\<close> return or raise \<^verbatim>\<open>PeerRegistrationError\<close>, the latter
  also when the response is not a \<^verbatim>\<open>PeerRegistrationResponse\<close>. A reply that cannot be
  decoded makes \<^verbatim>\<open>deserialize\<close> raise \<^verbatim>\<open>SerializationError\<close> inside the \<^verbatim>\<open>try\<close>, which has no
  handler for it: that exception leaves \<open>connect\<close>, where the loop of the server's
  \<^verbatim>\<open>handler\<close> catches it around the same call.
\<close>

theorem connect_signaling_undecodable_reply:
  "connect_signaling ''host'' 0 None None (Reply SerializationError)
     = (PeerRegistrationRequest \<lparr>req_uuid = None, req_name = ''host''\<rparr>,
        Inl UncaughtSerializationError)"
  by (simp add: connect_signaling_def)

section \<open>Properties of the remote store\<close>

lemma fetch_looks_up_key:
  "\<exists>rest. fst (fetch get_bytes float_of deser self key deserialize dflt) = key # rest"
  by (simp add: fetch_def split: option.splits)

text \<open>
  Claim C8. With a cache, a key that the cache holds with timestamp \<open>cache_timestamp\<close> and
  value \<open>v\<close>, and \<^verbatim>\<open>strict=True\<close>: \<^verbatim>\<open>get\<close> first looks the sidecar key up in the remote store;
  with \<open>ts\<close> the timestamp read from it, \<^verbatim>\<open>get\<close> returns \<open>v\<close> from the cache, with no other
  lookup, when \<open>cache_timestamp \<ge> ts\<close>, and otherwise goes on with the fetch from the remote
  store, whose first lookup is the key itself. So the value is looked up in the remote
  store exactly when the cached timestamp is less than the store's.
\<close>

theorem strict_get_freshness:
  assumes c: "cache self = Some c"
    and k: "c key = Some (cache_timestamp, v)"
    and b: "get_bytes (key @ ''_timestamp'') = Some b"
    and t: "float_of b = Inr ts"
  shows "store_get get_bytes float_of deser self key deserialize True dflt =
           (if cache_timestamp \<ge> ts
            then ([key @ ''_timestamp''], Inr (Some v, self))
            else ((key @ ''_timestamp'') # fst (fetch get_bytes float_of deser self key deserialize dflt),
                  snd (fetch get_bytes float_of deser self key deserialize dflt))) \<and>
         (key \<in> set (fst (store_get get_bytes float_of deser self key deserialize True dflt))
            \<longleftrightarrow> \<not> cache_timestamp \<ge> ts)"
proof -
  have ic: "is_cached get_bytes float_of self key True
              = ([key @ ''_timestamp''], Inr (cache_timestamp \<ge> ts))"
    using c k b t by (simp add: is_cached_def store_timestamp_def)
  have g: "store_get get_bytes float_of deser self key deserialize True dflt =
           (if cache_timestamp \<ge> ts
            then ([key @ ''_timestamp''], Inr (Some v, self))
            else ((key @ ''_timestamp'') # fst (fetch get_bytes float_of deser self key deserialize dflt),
                  snd (fetch get_bytes float_of deser self key deserialize dflt)))"
    using c k by (simp add: store_get_def ic split: prod.splits)
  obtain rest where r: "fst (fetch get_bytes float_of deser self key deserialize dflt) = key # rest"
    using fetch_looks_up_key by blast
  show ?thesis
  proof (cases "cache_timestamp \<ge> ts")
    case True
    then show ?thesis using g by simp
  next
    case False
    then show ?thesis using g r by simp
  qed
qed

theorem strict_get_freshness_witness:
  "store_get [''k_timestamp'' \<mapsto> [9], ''k'' \<mapsto> [2]] (\<lambda>b. Inr 7) (\<lambda>b. Inr b)
      \<lparr>cache = Some [''k'' \<mapsto> (5, Serialized [1])]\<rparr> ''k'' False True None
   = ([''k_timestamp'', ''k'', ''k_timestamp''],
      Inr (Some (Serialized [2]),
           \<lparr>cache = Some [''k'' \<mapsto> (7, Serialized [2])]\<rparr> :: bytes RemoteStore))"
  using strict_get_freshness
    [where self = "\<lparr>cache = Some [''k'' \<mapsto> (5, Serialized [1])]\<rparr> :: bytes RemoteStore"
       and c = "[''k'' \<mapsto> (5, Serialized [1])]" and key = "''k''"
       and cache_timestamp = 5 and v = "Serialized [1]"
       and get_bytes = "[''k_timestamp'' \<mapsto> [9], ''k'' \<mapsto> [2]]" and b = "[9]"
       and float_of = "\<lambda>b. Inr 7" and ts = 7
       and deser = "\<lambda>b. Inr b" and deserialize = False and dflt = None]
  by (simp add: fetch_def store_timestamp_def)

text \<open>
  Claim C10. When \<^verbatim>\<open>get\<close> is not answered from the cache (\<open>is_cached\<close> does not return
  \<^verbatim>\<open>True\<close>), the remote store has a value for the key and has none for the sidecar key,
  \<^verbatim>\<open>get\<close> raises \<^verbatim>\<open>AttributeError\<close> (from \<^verbatim>\<open>None.decode()\<close>): it returns neither the value nor
  the default.
\<close>

theorem get_raises_without_sidecar:
  assumes nc: "snd (is_cached get_bytes float_of self key strict) \<noteq> Inr True"
    and v: "get_bytes key = Some raw"
    and t: "get_bytes (key @ ''_timestamp'') = None"
  shows "snd (store_get get_bytes float_of deser self key deserialize strict dflt)
           = Inl AttributeError"
proof -
  have st: "store_timestamp get_bytes float_of key = Inl AttributeError"
    using t by (simp add: store_timestamp_def)
  obtain looked r where ic: "is_cached get_bytes float_of self key strict = (looked, r)"
    by (cases "is_cached get_bytes float_of self key strict")
  show ?thesis
  proof (cases r)
    case (Inl err)
    have "err = AttributeError"
      using ic Inl st
      by (auto simp: is_cached_def split: option.splits if_splits prod.splits)
    then show ?thesis using ic Inl by (simp add: store_get_def)
  next
    case (Inr hit)
    then have "\<not> hit" using nc ic by simp
    then show ?thesis using ic Inr v st by (simp add: store_get_def fetch_def)
  qed
qed

theorem get_raises_without_sidecar_witness:
  "snd (store_get [''k'' \<mapsto> [1]] (\<lambda>b. Inr 0) (\<lambda>b. Inr b)
          (\<lparr>cache = None\<rparr> :: bytes RemoteStore) ''k'' True False None)
   = Inl AttributeError"
proof -
  have nc: "snd (is_cached [''k'' \<mapsto> [1 :: 8 word]] (\<lambda>b. Inr 0)
                  (\<lparr>cache = None\<rparr> :: bytes RemoteStore) ''k'' False) \<noteq> Inr True"
    by (simp add: is_cached_def)
  have v: "[''k'' \<mapsto> [1 :: 8 word]] ''k'' = Some [1]" by simp
  have t: "[''k'' \<mapsto> [1 :: 8 word]] (''k'' @ ''_timestamp'') = None" by simp
  from get_raises_without_sidecar[OF nc v t, of "\<lambda>b. Inr b" True None]
  show ?thesis .
qed

section \<open>Properties of the endpoint connector\<close>

lemma target_local_id:
  assumes "local_id ep' = local_id ep"
  shows "target ep' eid = target ep eid"
proof (cases eid)
  case None
  then show ?thesis by (simp add: target_def)
next
  case (Some x)
  show ?thesis unfolding target_def Some option.case assms ..
qed

lemma local_id_set_store_at: "local_id (set_store_at ep t st) = local_id ep"
  by (cases t) (simp_all add: set_store_at_def)

lemma target_set_store_at: "target (set_store_at ep t st) eid = target ep eid"
  by (rule target_local_id) (rule local_id_set_store_at)

lemma target_not_local: "target ep eid \<noteq> Some (local_id ep)"
  by (cases eid) (simp_all add: target_def)

lemma store_at_set_store_at:
  "store_at (set_store_at ep t st) t' = (if t' = t then Some st else store_at ep t')"
  by (cases t; cases t') (simp_all add: store_at_def set_store_at_def)

lemma evicts_local_id:
  assumes "local_id ep' = local_id ep"
  shows "evicts ep' k c = evicts ep k c"
  by (cases c) (simp_all add: evicts_def target_local_id[OF assms])

lemma put_cases:
  obtains (fail) code where
      "put uuid4s self e obj =
         (Inl (EndpointConnectorError ''Put'' code), e\<lparr>uuid4_calls := Suc (uuid4_calls e)\<rparr>)"
  | (ok) st where
      "store_at (service e) (target (service e) (Some (endpoint_uuid self))) = Some st"
      "put uuid4s self e obj =
         (Inr \<lparr>object_id = uuid4s (uuid4_calls e), endpoint_id = Some (endpoint_uuid self)\<rparr>,
          e\<lparr>uuid4_calls := Suc (uuid4_calls e),
            service := set_store_at (service e) (target (service e) (Some (endpoint_uuid self)))
                         (st(uuid4s (uuid4_calls e) \<mapsto> obj))\<rparr>)"
proof (cases "store_at (service e) (target (service e) (Some (endpoint_uuid self)))")
  case None
  then have "put uuid4s self e obj =
         (Inl (EndpointConnectorError ''Put'' 502), e\<lparr>uuid4_calls := Suc (uuid4_calls e)\<rparr>)"
    by (simp add: put_def Let_def client_put_def)
  then show ?thesis by (rule fail)
next
  case (Some st)
  then have "put uuid4s self e obj =
         (Inr \<lparr>object_id = uuid4s (uuid4_calls e), endpoint_id = Some (endpoint_uuid self)\<rparr>,
          e\<lparr>uuid4_calls := Suc (uuid4_calls e),
            service := set_store_at (service e) (target (service e) (Some (endpoint_uuid self)))
                         (st(uuid4s (uuid4_calls e) \<mapsto> obj))\<rparr>)"
    by (simp add: put_def Let_def client_put_def)
  with Some show ?thesis by (rule ok)
qed

lemma evict_cases:
  obtains (fail) code where
      "evict self e k' = (Inl (EndpointConnectorError ''Evict'' code), e)"
  | (ok) st where
      "store_at (service e) (target (service e) (endpoint_id k')) = Some st"
      "evict self e k' =
         (Inr (), e\<lparr>service := set_store_at (service e) (target (service e) (endpoint_id k'))
                         (st(object_id k' := None))\<rparr>)"
proof (cases "store_at (service e) (target (service e) (endpoint_id k'))")
  case None
  then have "evict self e k' = (Inl (EndpointConnectorError ''Evict'' 502), e)"
    by (simp add: evict_def client_evict_def)
  then show ?thesis by (rule fail)
next
  case (Some st)
  then have "evict self e k' =
         (Inr (), e\<lparr>service := set_store_at (service e) (target (service e) (endpoint_id k'))
                         (st(object_id k' := None))\<rparr>)"
    by (simp add: evict_def client_evict_def)
  with Some show ?thesis by (rule ok)
qed

lemma holds_set_store_at:
  "holds (set_store_at ep t st) k b =
     (if target ep (endpoint_id k) = t then st (object_id k) = Some b else holds ep k b)"
  by (simp add: holds_def target_set_store_at store_at_set_store_at)

lemma put_effect:
  assumes p: "put uuid4s self e obj = (r, e')"
  shows "uuid4_calls e' = Suc (uuid4_calls e)"
    and "local_id (service e') = local_id (service e)"
    and "r = Inr k \<Longrightarrow>
           k = \<lparr>object_id = uuid4s (uuid4_calls e), endpoint_id = Some (endpoint_uuid self)\<rparr>"
    and "r = Inr k \<Longrightarrow> holds (service e') k obj"
proof -
  show "uuid4_calls e' = Suc (uuid4_calls e)"
    by (cases rule: put_cases[of uuid4s self e obj]) (use p in auto)
  show "local_id (service e') = local_id (service e)"
    by (cases rule: put_cases[of uuid4s self e obj])
       (use p in \<open>auto simp: local_id_set_store_at\<close>)
  show "k = \<lparr>object_id = uuid4s (uuid4_calls e), endpoint_id = Some (endpoint_uuid self)\<rparr>"
    if "r = Inr k"
    by (cases rule: put_cases[of uuid4s self e obj]) (use p that in auto)
  show "holds (service e') k obj" if "r = Inr k"
    by (cases rule: put_cases[of uuid4s self e obj])
       (use p that in \<open>auto simp: holds_set_store_at\<close>)
qed

lemma put_keeps:
  assumes h: "holds (service e) k b" and p: "put uuid4s self e obj = (r, e')"
    and n: "uuid4s (uuid4_calls e) \<noteq> object_id k"
  shows "holds (service e') k b"
proof (cases rule: put_cases[of uuid4s self e obj])
  case (fail code)
  then show ?thesis using h p by auto
next
  case (ok st)
  have "st (object_id k) = Some b"
    if "target (service e) (endpoint_id k) = target (service e) (Some (endpoint_uuid self))"
    using h that ok(1) by (simp add: holds_def)
  then show ?thesis using h p n ok(2) by (auto simp: holds_set_store_at)
qed

lemma evict_effect:
  assumes p: "evict self e k' = (r, e')"
  shows "uuid4_calls e' = uuid4_calls e"
    and "local_id (service e') = local_id (service e)"
proof -
  show "uuid4_calls e' = uuid4_calls e"
    by (cases rule: evict_cases[of self e k']) (use p in auto)
  show "local_id (service e') = local_id (service e)"
    by (cases rule: evict_cases[of self e k'])
       (use p in \<open>auto simp: local_id_set_store_at\<close>)
qed

lemma evict_keeps:
  assumes h: "holds (service e) k b" and p: "evict self e k' = (r, e')"
    and n: "\<not> evicts (service e) k (Evict k')"
  shows "holds (service e') k b"
proof (cases rule: evict_cases[of self e k'])
  case (fail code)
  then show ?thesis using h p by auto
next
  case (ok st)
  from n have d: "object_id k' \<noteq> object_id k
      \<or> target (service e) (endpoint_id k') \<noteq> target (service e) (endpoint_id k)"
    by (simp add: evicts_def)
  have "st (object_id k) = Some b"
    if "target (service e) (endpoint_id k) = target (service e) (endpoint_id k')"
    using h that ok(1) by (simp add: holds_def)
  then show ?thesis using h p d ok(2) by (auto simp: holds_set_store_at)
qed

lemma holds_get: "holds (service e) k b \<Longrightarrow> get self e k = Inr (Some b)"
  by (simp add: holds_def get_def client_get_def split: option.splits)

lemma holds_exists: "holds (service e) k b \<Longrightarrow> exists self e k = Inr True"
  by (simp add: holds_def exists_def client_exists_def split: option.splits)

lemma holds_evict:
  assumes h: "holds (service e) k b"
  shows "\<exists>e'. evict self e k = (Inr (), e') \<and> exists self e' k = Inr False
           \<and> get self e' k = Inr None"
proof (cases rule: evict_cases[of self e k])
  case (fail code)
  then show ?thesis using h
    by (simp add: holds_def evict_def client_evict_def split: option.splits)
next
  case (ok st)
  let ?e' = "e\<lparr>service := set_store_at (service e) (target (service e) (endpoint_id k))
                         (st(object_id k := None))\<rparr>"
  have "exists self ?e' k = Inr False" "get self ?e' k = Inr None"
    by (simp_all add: exists_def client_exists_def get_def client_get_def
          target_set_store_at store_at_set_store_at)
  then show ?thesis using ok(2) by simp
qed

lemma perform_effect:
  assumes p: "perform uuid4s self e c = (r, e')"
  shows "uuid4_calls e \<le> uuid4_calls e'"
    and "local_id (service e') = local_id (service e)"
    and "r = Key k \<Longrightarrow> object_id k = uuid4s (uuid4_calls e) \<and> uuid4_calls e < uuid4_calls e'"
proof -
  show "uuid4_calls e \<le> uuid4_calls e'"
  proof (cases c)
    case (Put obj)
    obtain r1 e1 where q: "put uuid4s self e obj = (r1, e1)" by (cases "put uuid4s self e obj")
    then show ?thesis using p Put put_effect(1)[OF q]
      by (auto simp: perform_def split: sum.splits)
  next
    case (Evict k')
    obtain r1 e1 where q: "evict self e k' = (r1, e1)" by (cases "evict self e k'")
    then show ?thesis using p Evict evict_effect(1)[OF q]
      by (auto simp: perform_def split: sum.splits)
  qed (use p in \<open>auto simp: perform_def split: sum.splits\<close>)
  show "local_id (service e') = local_id (service e)"
  proof (cases c)
    case (Put obj)
    obtain r1 e1 where q: "put uuid4s self e obj = (r1, e1)" by (cases "put uuid4s self e obj")
    then show ?thesis using p Put put_effect(2)[OF q]
      by (auto simp: perform_def split: sum.splits)
  next
    case (Evict k')
    obtain r1 e1 where q: "evict self e k' = (r1, e1)" by (cases "evict self e k'")
    then show ?thesis using p Evict evict_effect(2)[OF q]
      by (auto simp: perform_def split: sum.splits)
  qed (use p in \<open>auto simp: perform_def split: sum.splits\<close>)
  show "object_id k = uuid4s (uuid4_calls e) \<and> uuid4_calls e < uuid4_calls e'" if "r = Key k"
  proof (cases c)
    case (Put obj)
    obtain r1 e1 where q: "put uuid4s self e obj = (r1, e1)" by (cases "put uuid4s self e obj")
    then show ?thesis using p Put that put_effect(1)[OF q] put_effect(3)[OF q, of k]
      by (auto simp: perform_def split: sum.splits)
  qed (use p that in \<open>auto simp: perform_def split: sum.splits prod.splits\<close>)
qed

lemma perform_keeps:
  assumes h: "holds (service e) k b" and p: "perform uuid4s self e c = (r, e')"
    and n: "\<not> evicts (service e) k c"
    and f: "uuid4s (uuid4_calls e) \<noteq> object_id k"
  shows "holds (service e') k b"
proof (cases c)
  case (Put obj)
  obtain r1 e1 where q: "put uuid4s self e obj = (r1, e1)" by (cases "put uuid4s self e obj")
  then show ?thesis using p Put put_keeps[OF h q f]
    by (auto simp: perform_def split: sum.splits)
next
  case (Evict k')
  obtain r1 e1 where q: "evict self e k' = (r1, e1)" by (cases "evict self e k'")
  then show ?thesis using p Evict n evict_keeps[OF h q]
    by (auto simp: perform_def split: sum.splits)
qed (use h p in \<open>auto simp: perform_def split: sum.splits\<close>)

lemma run_keeps:
  assumes "holds (service e) k b" "run uuid4s self e calls = (rs, e')"
    and "\<forall>c \<in> set calls. \<not> evicts (service e) k c"
    and "\<forall>n \<ge> uuid4_calls e. uuid4s n \<noteq> object_id k"
  shows "holds (service e') k b"
  using assms
proof (induction calls arbitrary: e rs)
  case Nil
  then show ?case by simp
next
  case (Cons c calls)
  obtain r e1 where p: "perform uuid4s self e c = (r, e1)"
    by (cases "perform uuid4s self e c")
  obtain rs1 where q: "run uuid4s self e1 calls = (rs1, e')"
    using Cons.prems(2) p by (auto split: prod.splits)
  note eff = perform_effect[OF p]
  have h1: "holds (service e1) k b"
    using perform_keeps[OF Cons.prems(1) p] Cons.prems(3,4) by simp
  have n1: "\<forall>c \<in> set calls. \<not> evicts (service e1) k c"
    using Cons.prems(3) evicts_local_id[OF eff(2)] by simp
  have f1: "\<forall>n \<ge> uuid4_calls e1. uuid4s n \<noteq> object_id k"
    using Cons.prems(4) eff(1) by simp
  show ?case by (rule Cons.IH[OF h1 q n1 f1])
qed

lemma run_keys:
  assumes "run uuid4s self e calls = (rs, e')" "Key k \<in> set rs"
  shows "\<exists>n. uuid4_calls e \<le> n \<and> n < uuid4_calls e' \<and> object_id k = uuid4s n"
  using assms
proof (induction calls arbitrary: e rs)
  case Nil
  then show ?case by simp
next
  case (Cons c calls)
  obtain r e1 where p: "perform uuid4s self e c = (r, e1)"
    by (cases "perform uuid4s self e c")
  obtain rs1 where q: "run uuid4s self e1 calls = (rs1, e')" and rs: "rs = r # rs1"
    using Cons.prems(1) p by (auto split: prod.splits)
  note eff = perform_effect[OF p]
  have mono: "uuid4_calls e1 \<le> uuid4_calls e'"
    using q
  proof (induction calls arbitrary: e1 rs1)
    case Nil
    then show ?case by simp
  next
    case (Cons c' calls')
    obtain r2 e2 where p2: "perform uuid4s self e1 c' = (r2, e2)"
      by (cases "perform uuid4s self e1 c'")
    obtain rs2 where q2: "run uuid4s self e2 calls' = (rs2, e')"
      using Cons.prems p2 by (auto split: prod.splits)
    from perform_effect(1)[OF p2] Cons.IH[OF q2] show ?case by simp
  qed
  from Cons.prems(2) rs consider "r = Key k" | "Key k \<in> set rs1" by auto
  then show ?case
  proof cases
    case 1
    from eff(3)[OF 1] mono show ?thesis by (intro exI[of _ "uuid4_calls e"]) simp
  next
    case 2
    from Cons.IH[OF q 2] obtain n where "uuid4_calls e1 \<le> n" "n < uuid4_calls e'"
      "object_id k = uuid4s n" by blast
    then show ?thesis using eff(1) by (intro exI[of _ n]) simp
  qed
qed

lemma inj_replicate: "inj (\<lambda>n. replicate n c)"
  by (rule injI) (metis length_replicate)

text \<open>
  Claim C1. After a \<^verbatim>\<open>put\<close> of the bytes \<open>obj\<close> that returned the key \<open>k\<close>, and after any
  further calls on the connector none of which evicts the object of \<open>k\<close>: \<^verbatim>\<open>get(k)\<close> returns
  \<open>obj\<close> and \<^verbatim>\<open>exists(k)\<close> returns \<^verbatim>\<open>True\<close>; \<^verbatim>\<open>evict(k)\<close> then succeeds, and after it
  \<^verbatim>\<open>exists(k)\<close> returns \<^verbatim>\<open>False\<close> and \<^verbatim>\<open>get(k)\<close> returns \<^verbatim>\<open>None\<close>. The identifiers that \<^verbatim>\<open>uuid4\<close>
  returns are taken to be pairwise distinct, so that no later \<^verbatim>\<open>put\<close> writes under the
  object identifier of \<open>k\<close>.
\<close>

theorem put_get_roundtrip:
  assumes i: "inj uuid4s"
    and p: "put uuid4s self e obj = (Inr k, e1)"
    and r: "run uuid4s self e1 calls = (rs, e2)"
    and n: "\<forall>c \<in> set calls. \<not> evicts (service e1) k c"
  shows "get self e2 k = Inr (Some obj) \<and> exists self e2 k = Inr True \<and>
         (\<exists>e3. evict self e2 k = (Inr (), e3) \<and> exists self e3 k = Inr False
            \<and> get self e3 k = Inr None)"
proof -
  have h1: "holds (service e1) k obj" using put_effect(4)[OF p] by simp
  have "object_id k = uuid4s (uuid4_calls e)" using put_effect(3)[OF p, of k] by simp
  moreover have "uuid4_calls e1 = Suc (uuid4_calls e)" by (rule put_effect(1)[OF p])
  ultimately have f: "\<forall>n \<ge> uuid4_calls e1. uuid4s n \<noteq> object_id k"
    using i by (auto dest: injD)
  have h2: "holds (service e2) k obj" by (rule run_keeps[OF h1 r n f])
  show ?thesis using holds_get[OF h2] holds_exists[OF h2] holds_evict[OF h2] by simp
qed

theorem put_get_roundtrip_witness:
  "get \<lparr>endpoint_uuid = ''E''\<rparr>
     (snd (run (\<lambda>n. replicate n CHR ''a'') \<lparr>endpoint_uuid = ''E''\<rparr>
        (snd (put (\<lambda>n. replicate n CHR ''a'') \<lparr>endpoint_uuid = ''E''\<rparr>
           \<lparr>service = \<lparr>local_id = ''E'', local_store = Map.empty, peers = Map.empty\<rparr>,
            uuid4_calls = 0\<rparr> [1, 2]))
        [Put [3], Evict \<lparr>object_id = ''zz'', endpoint_id = None\<rparr>,
         Get \<lparr>object_id = [], endpoint_id = Some ''E''\<rparr>]))
     \<lparr>object_id = [], endpoint_id = Some ''E''\<rparr>
   = Inr (Some [1, 2])"
proof -
  let ?g = "\<lambda>n. replicate n CHR ''a''"
  let ?self = "\<lparr>endpoint_uuid = ''E''\<rparr>"
  let ?e = "\<lparr>service = \<lparr>local_id = ''E'', local_store = Map.empty, peers = Map.empty\<rparr>,
            uuid4_calls = 0\<rparr>"
  let ?k = "\<lparr>object_id = [], endpoint_id = Some ''E''\<rparr>"
  let ?calls = "[Put [3], Evict \<lparr>object_id = ''zz'', endpoint_id = None\<rparr>, Get ?k]"
  let ?e1 = "\<lparr>service = \<lparr>local_id = ''E'', local_store = [[] \<mapsto> [1, 2]], peers = Map.empty\<rparr>,
             uuid4_calls = Suc 0\<rparr>"
  have p: "put ?g ?self ?e [1, 2] = (Inr ?k, ?e1)"
    by (simp add: put_def Let_def client_put_def store_at_def set_store_at_def target_def)
  have r: "run ?g ?self ?e1 ?calls = (fst (run ?g ?self ?e1 ?calls), snd (run ?g ?self ?e1 ?calls))"
    by simp
  have n: "\<forall>c \<in> set ?calls. \<not> evicts (service ?e1) ?k c"
    by (simp add: evicts_def target_def)
  from put_get_roundtrip[OF inj_replicate p r n] show ?thesis by (simp add: p)
qed

text \<open>
  Claim C7. A \<^verbatim>\<open>put\<close> that returns a key returns one whose endpoint identifier is that of
  the connector's endpoint and whose object identifier is the one \<^verbatim>\<open>uuid4\<close> minted in this
  call; the identifiers that \<^verbatim>\<open>uuid4\<close> returns being pairwise distinct, it differs from the
  object identifier of every key the connector returned before.
\<close>

theorem put_key_fresh:
  assumes i: "inj uuid4s"
    and r: "run uuid4s self e0 calls = (rs, e)"
    and p: "put uuid4s self e obj = (Inr key, e')"
  shows "endpoint_id key = Some (endpoint_uuid self) \<and>
         object_id key = uuid4s (uuid4_calls e) \<and>
         (\<forall>k. Key k \<in> set rs \<longrightarrow> object_id k \<noteq> object_id key)"
proof -
  have k: "key = \<lparr>object_id = uuid4s (uuid4_calls e), endpoint_id = Some (endpoint_uuid self)\<rparr>"
    using put_effect(3)[OF p] by simp
  have "object_id k' \<noteq> object_id key" if "Key k' \<in> set rs" for k'
  proof -
    from run_keys[OF r that] obtain n where "n < uuid4_calls e" "object_id k' = uuid4s n"
      by blast
    then show ?thesis using i k by (auto dest: injD)
  qed
  then show ?thesis using k by simp
qed

theorem put_key_fresh_witness:
  "fst (run (\<lambda>n. replicate n CHR ''a'') \<lparr>endpoint_uuid = ''E''\<rparr>
          \<lparr>service = \<lparr>local_id = ''E'', local_store = Map.empty, peers = Map.empty\<rparr>,
           uuid4_calls = 0\<rparr> [Put [1]])
     = [Key \<lparr>object_id = [], endpoint_id = Some ''E''\<rparr>] \<and>
   fst (put (\<lambda>n. replicate n CHR ''a'') \<lparr>endpoint_uuid = ''E''\<rparr>
          (snd (run (\<lambda>n. replicate n CHR ''a'') \<lparr>endpoint_uuid = ''E''\<rparr>
             \<lparr>service = \<lparr>local_id = ''E'', local_store = Map.empty, peers = Map.empty\<rparr>,
              uuid4_calls = 0\<rparr> [Put [1]])) [2])
     = Inr \<lparr>object_id = ''a'', endpoint_id = Some ''E''\<rparr> \<and>
   object_id \<lparr>object_id = [], endpoint_id = Some ''E''\<rparr>
     \<noteq> object_id \<lparr>object_id = ''a'', endpoint_id = Some ''E''\<rparr>"
proof -
  let ?g = "\<lambda>n. replicate n CHR ''a''"
  let ?self = "\<lparr>endpoint_uuid = ''E''\<rparr>"
  let ?start = "\<lparr>service = \<lparr>local_id = ''E'', local_store = Map.empty, peers = Map.empty\<rparr>,
            uuid4_calls = 0\<rparr>"
  let ?first = "\<lparr>object_id = [], endpoint_id = Some ''E''\<rparr>"
  let ?second = "\<lparr>object_id = ''a'', endpoint_id = Some ''E''\<rparr>"
  let ?e = "\<lparr>service = \<lparr>local_id = ''E'', local_store = [[] \<mapsto> [1]], peers = Map.empty\<rparr>,
            uuid4_calls = Suc 0\<rparr>"
  let ?after = "\<lparr>service = \<lparr>local_id = ''E'', local_store = [[] \<mapsto> [1], ''a'' \<mapsto> [2]],
               peers = Map.empty\<rparr>, uuid4_calls = Suc (Suc 0)\<rparr>"
  have p0: "put ?g ?self ?start [1] = (Inr ?first, ?e)"
    by (simp add: put_def Let_def client_put_def store_at_def set_store_at_def target_def)
  have r: "run ?g ?self ?start [Put [1]] = ([Key ?first], ?e)"
    by (simp add: perform_def p0)
  have p: "put ?g ?self ?e [2] = (Inr ?second, ?after)"
    by (simp add: put_def Let_def client_put_def store_at_def set_store_at_def target_def)
  from put_key_fresh[OF inj_replicate r p]
  have "object_id ?first \<noteq> object_id ?second" by simp
  then show ?thesis unfolding r fst_conv snd_conv p by simp
qed

end
